theory Spec2Isabelle
  imports Complex_Main "HOL-Library.Multiset"
begin

section \<open>Data model of \<^verbatim>\<open>src/app.py\<close>\<close>

text \<open>
  A cell of a table read by \<^verbatim>\<open>read_csv\<close>: missing (pandas shows it as NaN), a string, or
  a number.
\<close>

datatype cell = Missing | Text string | Number real

text \<open>
  A row of \<^verbatim>\<open>videos.csv\<close>, with the eight columns that \<^verbatim>\<open>load_data\<close> selects. The id is
  compared for equality only and is a string here.
\<close>

record video =
  video_id :: string
  title :: cell
  topic :: cell
  concept_tags :: cell
  level :: cell
  course_id :: cell
  url :: cell
  duration_sec :: cell

text \<open>
  A row of \<^verbatim>\<open>progress.csv\<close>, columns \<^verbatim>\<open>user_id, course_id, video_id, watched\<close>.
  The two columns whose names \<^typ>\<open>video\<close> already uses carry the prefix \<open>progress_\<close>.
\<close>

record watch_event =
  user_id :: string
  progress_course_id :: cell
  progress_video_id :: string
  watched :: int

text \<open>
  A similarity score is a float in the source: \<open>None\<close> is NaN, \<open>Some x\<close> a number, taken
  as a real.
\<close>

type_synonym score = "real option"

text \<open>
  The two shapes of DataFrame that \<^verbatim>\<open>build_recommendations\<close> returns: \<open>Videos\<close> is a
  frame with the columns of the catalog only (the argument \<^verbatim>\<open>videos\<close> itself), and
  \<open>WithSimilarity\<close> is \<^verbatim>\<open>videos_copy\<close>, the same columns followed by the column
  \<^verbatim>\<open>similarity\<close>. Both are DataFrames in the source; no other tag tells them apart.
\<close>

datatype frame = Videos "video list" | WithSimilarity "(video \<times> score) list"

text \<open>The catalog rows of a frame, in order.\<close>

fun rows :: "frame \<Rightarrow> video list" where
  "rows (Videos vs) = vs"
| "rows (WithSimilarity rs) = map fst rs"

text \<open>
  What a call can raise. TypeError: the string concatenation of lines 138 to 142 meets a
  number. ValueError: \<^verbatim>\<open>fit_transform\<close> finds no term in the whole catalog (line 145), or
  the column assignment of line 167 gets a column of another length. IndexError:
  \<^verbatim>\<open>tfidf_matrix[watched_idx]\<close> (line 160) gets a position outside the matrix.
\<close>

datatype error = TypeError | ValueError | IndexError

section \<open>The library calls\<close>

text \<open>
  \<^verbatim>\<open>TfidfVectorizer().fit_transform\<close>, the sparse-matrix \<^verbatim>\<open>mean(axis=0)\<close>,
  \<^verbatim>\<open>cosine_similarity\<close> (scikit-learn, SciPy) and \<^verbatim>\<open>DataFrame.sort_values\<close> (pandas) are
  third-party code that is not part of the repository. They are parameters of the
  model: \<open>'v\<close> is the type of a feature vector, a matrix is the list of its rows.
  \<^verbatim>\<open>fit_transform\<close> may raise, the scores may be NaN, and \<^verbatim>\<open>sort_values\<close> takes the key
  column and the flag \<^verbatim>\<open>ascending\<close> of the call.
\<close>

record 'v libs =
  fit_transform :: "string list \<Rightarrow> error + 'v list"
  mean_axis0 :: "'v list \<Rightarrow> 'v"
  cosine_similarity :: "'v \<Rightarrow> 'v list \<Rightarrow> score list"
  sort_values ::
    "(video \<times> score \<Rightarrow> score) \<Rightarrow> bool \<Rightarrow> (video \<times> score) list \<Rightarrow> (video \<times> score) list"

text \<open>
  The order that \<^verbatim>\<open>sort_values\<close> puts two keys in: by value, increasing when
  \<^verbatim>\<open>ascending\<close> and decreasing otherwise, and NaN after every number
  (\<^verbatim>\<open>na_position='last'\<close>).
\<close>

fun in_order :: "bool \<Rightarrow> score \<Rightarrow> score \<Rightarrow> bool" where
  "in_order asc x None = True"
| "in_order asc None (Some b) = False"
| "in_order asc (Some a) (Some b) = (if asc then a \<le> b else b \<le> a)"

text \<open>
  What the source relies on: when \<^verbatim>\<open>fit_transform\<close> returns, the matrix has one row per
  text; \<^verbatim>\<open>cosine_similarity(profile, matrix)\<close> has one score per row; and
  \<^verbatim>\<open>sort_values(key, ascending)\<close> returns the same rows in the order of their keys. The
  default sort of pandas (quicksort) is documented as not stable, so nothing is assumed
  on the order of rows with equal keys.
\<close>

definition lib_ok :: "'v libs \<Rightarrow> bool" where
  "lib_ok lib \<longleftrightarrow>
     (\<forall>ts m. fit_transform lib ts = Inr m \<longrightarrow> length m = length ts) \<and>
     (\<forall>p m. length (cosine_similarity lib p m) = length m) \<and>
     (\<forall>key asc rs. mset (sort_values lib key asc rs) = mset rs \<and>
        sorted_wrt (\<lambda>a b. in_order asc (key a) (key b)) (sort_values lib key asc rs))"

section \<open>The pandas operations written out\<close>

text \<open>
  One cell of \<^verbatim>\<open>Series.fillna("")\<close> as an operand of the string concatenation \<^verbatim>\<open>+\<close>: a
  missing cell is the empty string, and a number makes the concatenation raise.
\<close>

fun fillna_str :: "cell \<Rightarrow> error + string" where
  "fillna_str Missing = Inr []"
| "fillna_str (Text s) = Inr s"
| "fillna_str (Number x) = Inl TypeError"

text \<open>The float comparison \<^verbatim>\<open>similarity > 0\<close>, which is false on NaN.\<close>

fun gt_zero :: "score \<Rightarrow> bool" where
  "gt_zero None = False"
| "gt_zero (Some x) = (0 < x)"

text \<open>\<^verbatim>\<open>Series.unique()\<close>: the distinct values in order of first appearance.\<close>

definition unique :: "'a list \<Rightarrow> 'a list" where
  "unique xs = rev (remdups (rev xs))"

text \<open>
  \<^verbatim>\<open>DataFrame.head(n)\<close>: the first \<open>n\<close> rows, and for a negative \<open>n\<close> all rows but the
  last \<open>-n\<close>.
\<close>

definition head :: "int \<Rightarrow> 'a list \<Rightarrow> 'a list" where
  "head n xs = (if 0 \<le> n then take (nat n) xs else take (length xs - nat (- n)) xs)"

section \<open>\<^verbatim>\<open>build_recommendations\<close>\<close>

text \<open>
  Lines 138 to 142: the text of every item, \<^verbatim>\<open>title + " " + topic + " " + concept_tags\<close>
  with missing fields as the empty string. The operation is on whole columns, so a number
  in any row makes it raise.
\<close>

definition row_text :: "video \<Rightarrow> error + string" where
  "row_text v =
     (case fillna_str (title v) of Inl e \<Rightarrow> Inl e | Inr a \<Rightarrow>
      case fillna_str (topic v) of Inl e \<Rightarrow> Inl e | Inr b \<Rightarrow>
      case fillna_str (concept_tags v) of Inl e \<Rightarrow> Inl e | Inr c \<Rightarrow>
      Inr (a @ '' '' @ b @ '' '' @ c))"

fun texts :: "video list \<Rightarrow> error + string list" where
  "texts [] = Inr []"
| "texts (v # vs) =
     (case row_text v of Inl e \<Rightarrow> Inl e | Inr t \<Rightarrow>
      case texts vs of Inl e \<Rightarrow> Inl e | Inr ts \<Rightarrow> Inr (t # ts))"

text \<open>Lines 138 to 145: the texts and their matrix, or what was raised on the way.\<close>

definition index_catalog :: "'v libs \<Rightarrow> video list \<Rightarrow> error + 'v list" where
  "index_catalog lib videos =
     (case texts videos of Inl e \<Rightarrow> Inl e | Inr ts \<Rightarrow> fit_transform lib ts)"

text \<open>Lines 147 to 149: the rows of the user with \<^verbatim>\<open>watched == 1\<close>.\<close>

definition user_watched :: "watch_event list \<Rightarrow> string \<Rightarrow> watch_event list" where
  "user_watched progress uid = filter (\<lambda>e. user_id e = uid \<and> watched e = 1) progress"

text \<open>Line 154: the distinct watched ids.\<close>

definition watched_ids :: "watch_event list \<Rightarrow> string \<Rightarrow> string list" where
  "watched_ids progress uid = unique (map progress_video_id (user_watched progress uid))"

text \<open>
  Line 155: the index labels of the catalog rows whose id is watched. The catalog comes
  from \<^verbatim>\<open>read_csv\<close> or from \<^verbatim>\<open>concat(ignore_index=True)\<close>, so its labels are the row
  positions \<open>0, 1, ...\<close>.
\<close>

definition watched_idx :: "video list \<Rightarrow> string list \<Rightarrow> nat list" where
  "watched_idx videos ids = filter (\<lambda>i. video_id (videos ! i) \<in> set ids) [0..<length videos]"

text \<open>
  Lines 134 to 174. The texts and the matrix are computed right after the test for an
  empty catalog and before the history is looked at, so what they raise is raised
  whatever the history.
\<close>

definition build_recommendations ::
  "'v libs \<Rightarrow> video list \<Rightarrow> watch_event list \<Rightarrow> string \<Rightarrow> int \<Rightarrow> error + frame" where
  "build_recommendations lib videos progress uid top_n =
     (if videos = [] then Inr (Videos videos)
      else
        case texts videos of Inl e \<Rightarrow> Inl e | Inr ts \<Rightarrow>
        case fit_transform lib ts of Inl e \<Rightarrow> Inl e | Inr tfidf_matrix \<Rightarrow>
        if length (unique (map progress_video_id (user_watched progress uid))) < 2
        then Inr (Videos videos)
        else
          let wids = unique (map progress_video_id (user_watched progress uid));
              widx = watched_idx videos wids in
          if widx = [] then Inr (Videos videos)
          else if list_ex (\<lambda>i. length tfidf_matrix \<le> i) widx then Inl IndexError
          else
            let watched_vectors = map (\<lambda>i. tfidf_matrix ! i) widx;
                user_profile_vec = mean_axis0 lib watched_vectors;
                sims = cosine_similarity lib user_profile_vec tfidf_matrix in
            if length sims \<noteq> length videos then Inl ValueError
            else
              let videos_copy = zip videos sims;
                  videos_copy = filter (\<lambda>r. video_id (fst r) \<notin> set wids) videos_copy;
                  videos_copy = filter (\<lambda>r. gt_zero (snd r)) videos_copy;
                  videos_copy = sort_values lib snd False videos_copy
              in Inr (WithSimilarity (head top_n videos_copy)))"

section \<open>Notions used to state the properties\<close>

text \<open>
  The conditions of the three early returns (lines 135, 151 and 157): the catalog is
  empty, the user has fewer than two distinct watched ids, or no catalog row carries a
  watched id.
\<close>

definition insufficient :: "video list \<Rightarrow> watch_event list \<Rightarrow> string \<Rightarrow> bool" where
  "insufficient videos progress uid \<longleftrightarrow>
     videos = [] \<or> length (watched_ids progress uid) < 2 \<or>
     watched_idx videos (watched_ids progress uid) = []"

text \<open>The distinct watched ids that some catalog row carries.\<close>

definition valid_watched_ids :: "video list \<Rightarrow> watch_event list \<Rightarrow> string \<Rightarrow> string list" where
  "valid_watched_ids videos progress uid =
     filter (\<lambda>i. i \<in> video_id ` set videos) (watched_ids progress uid)"

text \<open>
  Lines 160 to 164: the column \<^verbatim>\<open>sims\<close>, one score per catalog row (no score when the
  catalog could not be indexed).
\<close>

definition similarities :: "'v libs \<Rightarrow> video list \<Rightarrow> watch_event list \<Rightarrow> string \<Rightarrow> score list" where
  "similarities lib videos progress uid =
     (case index_catalog lib videos of Inl e \<Rightarrow> []
      | Inr m \<Rightarrow>
          cosine_similarity lib
            (mean_axis0 lib (map (\<lambda>i. m ! i) (watched_idx videos (watched_ids progress uid)))) m)"

text \<open>Line 169: the scored rows whose id is not watched.\<close>

definition unwatched_scored ::
  "'v libs \<Rightarrow> video list \<Rightarrow> watch_event list \<Rightarrow> string \<Rightarrow> (video \<times> score) list" where
  "unwatched_scored lib videos progress uid =
     filter (\<lambda>r. video_id (fst r) \<notin> set (watched_ids progress uid))
       (zip videos (similarities lib videos progress uid))"

text \<open>
  Line 170: of those, the rows with a positive score, still in catalog order. These are
  the rows that reach the ranking step, \<^verbatim>\<open>sort_values\<close> of line 172.
\<close>

definition candidates ::
  "'v libs \<Rightarrow> video list \<Rightarrow> watch_event list \<Rightarrow> string \<Rightarrow> (video \<times> score) list" where
  "candidates lib videos progress uid =
     filter (\<lambda>r. gt_zero (snd r)) (unwatched_scored lib videos progress uid)"

text \<open>\<^verbatim>\<open>nan_to_num\<close> on one score: NaN becomes 0.\<close>

fun nan_to_zero :: "score \<Rightarrow> score" where
  "nan_to_zero None = Some 0"
| "nan_to_zero (Some x) = Some x"

text \<open>Lines 138 to 145 raise nothing.\<close>

definition indexable :: "'v libs \<Rightarrow> video list \<Rightarrow> bool" where
  "indexable lib videos \<longleftrightarrow> \<not> isl (index_catalog lib videos)"

section \<open>The libraries as documented\<close>

text \<open>
  Modelled from the spec: the vectorizer, the mean and the cosine similarity that lines
  144 to 164 call (scikit-learn and SciPy, whose code is not in the repository). Section
  4.1 of the spec: terms are case-normalized; the weight of a term in an item is its
  frequency in the item's text times a log-scaled, smoothed inverse of the share of
  items that contain it, and 0 for a term absent from the item. Section 4.2: the profile
  is the element-wise arithmetic mean of the retained rows, and the cosine similarity of
  a zero vector with anything is 0. Where the spec leaves a choice, the documented
  defaults of the library are taken: a term is a run of two or more letters, digits or
  underscores; the inverse document frequency is \<open>ln ((1 + n) / (1 + df)) + 1\<close>; every
  row is divided by its Euclidean length, a length of 0 being replaced by 1; the cosine
  is the dot product of the two vectors so scaled; and \<^verbatim>\<open>fit_transform\<close> raises ValueError
  when no text of the catalog has a term. The library orders the vocabulary
  alphabetically; here it is in order of first appearance, which permutes the columns of
  every row alike.
\<close>

definition lower :: "char \<Rightarrow> char" where
  "lower c =
     (case map_of (zip ''ABCDEFGHIJKLMNOPQRSTUVWXYZ'' ''abcdefghijklmnopqrstuvwxyz'') c of
        None \<Rightarrow> c | Some d \<Rightarrow> d)"

definition word_char :: "char \<Rightarrow> bool" where
  "word_char c \<longleftrightarrow> lower c \<in> set ''abcdefghijklmnopqrstuvwxyz0123456789_''"

text \<open>The maximal runs of word characters of a text, lower-cased (some may be empty).\<close>

fun runs :: "string \<Rightarrow> string \<Rightarrow> string list" where
  "runs acc [] = [acc]"
| "runs acc (c # cs) =
     (if word_char c then runs (acc @ [lower c]) cs else acc # runs [] cs)"

definition tokens :: "string \<Rightarrow> string list" where
  "tokens s = filter (\<lambda>w. 2 \<le> length w) (runs [] s)"

definition vocabulary :: "string list \<Rightarrow> string list" where
  "vocabulary ts = remdups (concat (map tokens ts))"

definition idf :: "nat \<Rightarrow> nat \<Rightarrow> real" where
  "idf n df = ln ((1 + real n) / (1 + real df)) + 1"

definition tf_idf :: "string list \<Rightarrow> string \<Rightarrow> string \<Rightarrow> real" where
  "tf_idf ts d t =
     real (count_list (tokens d) t) *
     idf (length ts) (length (filter (\<lambda>x. t \<in> set (tokens x)) ts))"

definition denom :: "real list \<Rightarrow> real" where
  "denom v = (let n = sqrt (sum_list (map (\<lambda>x. x * x) v)) in if n = 0 then 1 else n)"

definition l2_normalize :: "real list \<Rightarrow> real list" where
  "l2_normalize v = map (\<lambda>x. x / denom v) v"

definition tfidf_row :: "string list \<Rightarrow> string \<Rightarrow> real list" where
  "tfidf_row ts d = l2_normalize (map (tf_idf ts d) (vocabulary ts))"

definition tfidf_fit_transform :: "string list \<Rightarrow> error + real list list" where
  "tfidf_fit_transform ts =
     (if vocabulary ts = [] then Inl ValueError else Inr (map (tfidf_row ts) ts))"

definition mean_rows :: "real list list \<Rightarrow> real list" where
  "mean_rows rs = (case rs of [] \<Rightarrow> []
     | r # _ \<Rightarrow> map (\<lambda>j. sum_list (map (\<lambda>x. x ! j) rs) / real (length rs)) [0..<length r])"

definition dot :: "real list \<Rightarrow> real list \<Rightarrow> real" where
  "dot u v = sum_list (map2 (*) u v)"

definition cosine :: "real list \<Rightarrow> real list \<Rightarrow> real" where
  "cosine u v = dot (l2_normalize u) (l2_normalize v)"

text \<open>
  A sort for \<^verbatim>\<open>sort_values\<close>: insertion from the right, which puts the rows in the order
  of their keys and leaves rows with equal keys as they were.
\<close>

fun insert_row ::
  "(video \<times> score \<Rightarrow> score) \<Rightarrow> bool \<Rightarrow> video \<times> score \<Rightarrow> (video \<times> score) list \<Rightarrow> (video \<times> score) list"
where
  "insert_row key asc x [] = [x]"
| "insert_row key asc x (y # ys) =
     (if in_order asc (key x) (key y) then x # y # ys else y # insert_row key asc x ys)"

definition insertion_sort ::
  "(video \<times> score \<Rightarrow> score) \<Rightarrow> bool \<Rightarrow> (video \<times> score) list \<Rightarrow> (video \<times> score) list" where
  "insertion_sort key asc rs = foldr (insert_row key asc) rs []"

definition documented :: "real list libs" where
  "documented =
     \<lparr>fit_transform = tfidf_fit_transform, mean_axis0 = mean_rows,
      cosine_similarity = (\<lambda>p m. map (\<lambda>r. Some (cosine p r)) m),
      sort_values = insertion_sort\<rparr>"

text \<open>A catalog row with an id and a title only, one with an id only, and a watched event of a
  user.\<close>

definition reel :: "string \<Rightarrow> string \<Rightarrow> video" where
  "reel i t = \<lparr>video_id = i, title = Text t, topic = Missing, concept_tags = Missing,
              level = Missing, course_id = Missing, url = Missing, duration_sec = Missing\<rparr>"

definition blank :: "string \<Rightarrow> video" where
  "blank i = \<lparr>video_id = i, title = Missing, topic = Missing, concept_tags = Missing,
              level = Missing, course_id = Missing, url = Missing, duration_sec = Missing\<rparr>"

definition seen :: "string \<Rightarrow> string \<Rightarrow> watch_event" where
  "seen u i = \<lparr>user_id = u, progress_course_id = Missing, progress_video_id = i, watched = 1\<rparr>"

section \<open>Facts about the pandas operations and the libraries\<close>

lemmas model_defs =
  build_recommendations_def index_catalog_def indexable_def row_text_def user_watched_def
  watched_ids_def watched_idx_def unique_def head_def insufficient_def similarities_def
  candidates_def valid_watched_ids_def unwatched_scored_def Let_def

lemmas token_defs =
  documented_def tfidf_fit_transform_def vocabulary_def tokens_def word_char_def lower_def
  reel_def seen_def

lemmas score_defs =
  tfidf_row_def tf_idf_def l2_normalize_def mean_rows_def dot_def cosine_def insertion_sort_def

lemmas positive_rules =
  zero_less_mult_iff zero_less_divide_iff add_pos_pos

lemma set_unique [simp]: "set (unique xs) = set xs"
  by (simp add: unique_def)

lemma distinct_unique [simp]: "distinct (unique xs)"
  by (simp add: unique_def)

lemma length_unique: "length (unique xs) = card (set xs)"
  using distinct_card [of "unique xs"] by simp

lemma head_take: "\<exists>m. head n xs = take m xs"
  by (auto simp: head_def)

lemma set_head: "set (head n xs) \<subseteq> set xs"
  by (auto simp: head_def dest: in_set_takeD)

lemma watched_idx_bound: "i \<in> set (watched_idx videos ids) \<Longrightarrow> i < length videos"
  by (simp add: watched_idx_def)

lemma watched_idx_empty_iff:
  "watched_idx videos ids = [] \<longleftrightarrow> set ids \<inter> video_id ` set videos = {}"
proof
  assume e: "watched_idx videos ids = []"
  show "set ids \<inter> video_id ` set videos = {}"
  proof (rule ccontr)
    assume "set ids \<inter> video_id ` set videos \<noteq> {}"
    then obtain v where v: "v \<in> set videos" "video_id v \<in> set ids" by auto
    then obtain i where "i < length videos" "videos ! i = v" by (auto simp: in_set_conv_nth)
    with v have "i \<in> set (watched_idx videos ids)" by (simp add: watched_idx_def)
    with e show False by simp
  qed
next
  assume d: "set ids \<inter> video_id ` set videos = {}"
  have "video_id (videos ! i) \<notin> set ids" if "i < length videos" for i
  proof -
    from that have "videos ! i \<in> set videos" by (rule nth_mem)
    with d show ?thesis by blast
  qed
  then show "watched_idx videos ids = []"
    by (simp add: watched_idx_def filter_empty_conv)
qed

lemma insufficient_iff:
  "insufficient videos progress uid \<longleftrightarrow>
     videos = [] \<or> card (set (watched_ids progress uid)) < 2 \<or>
     set (watched_ids progress uid) \<inter> video_id ` set videos = {}"
proof -
  have "length (watched_ids progress uid) = card (set (watched_ids progress uid))"
    unfolding watched_ids_def by (simp add: length_unique)
  then show ?thesis by (simp add: insufficient_def watched_idx_empty_iff)
qed

lemma valid_two_sufficient:
  assumes "2 \<le> length (valid_watched_ids videos progress uid)"
  shows "\<not> insufficient videos progress uid"
proof -
  have l: "length (valid_watched_ids videos progress uid) \<le> length (watched_ids progress uid)"
    by (simp add: valid_watched_ids_def)
  from assms have "valid_watched_ids videos progress uid \<noteq> []" by auto
  then obtain i where "i \<in> set (valid_watched_ids videos progress uid)"
    by (cases "valid_watched_ids videos progress uid") auto
  then have i: "i \<in> set (watched_ids progress uid)" "i \<in> video_id ` set videos"
    by (auto simp: valid_watched_ids_def)
  then have "videos \<noteq> []" by auto
  moreover from i have "watched_idx videos (watched_ids progress uid) \<noteq> []"
    by (auto simp: watched_idx_empty_iff)
  ultimately show ?thesis using assms l by (simp add: insufficient_def)
qed

lemma texts_length: "texts vs = Inr ts \<Longrightarrow> length ts = length vs"
  by (induction vs arbitrary: ts) (auto split: sum.splits)

lemma texts_nth: "texts vs = Inr ts \<Longrightarrow> i < length vs \<Longrightarrow> row_text (vs ! i) = Inr (ts ! i)"
proof (induction vs arbitrary: ts i)
  case Nil
  then show ?case by simp
next
  case (Cons v vs)
  then show ?case by (cases i) (auto split: sum.splits)
qed

lemma indexableE:
  assumes "indexable lib videos"
  obtains ts m where "texts videos = Inr ts" "fit_transform lib ts = Inr m"
  using assms unfolding indexable_def index_catalog_def
  by (cases "texts videos"; cases "fit_transform lib (projr (texts videos))") auto

lemma lib_ok_rows: "lib_ok lib \<Longrightarrow> fit_transform lib ts = Inr m \<Longrightarrow> length m = length ts"
  by (simp add: lib_ok_def)

lemma lib_ok_scores: "lib_ok lib \<Longrightarrow> length (cosine_similarity lib p m) = length m"
  by (simp add: lib_ok_def)

lemma lib_ok_sorted:
  "lib_ok lib \<Longrightarrow>
   sorted_wrt (\<lambda>a b. in_order asc (key a) (key b)) (sort_values lib key asc rs)"
  by (simp add: lib_ok_def)

lemma lib_ok_mset: "lib_ok lib \<Longrightarrow> mset (sort_values lib key asc rs) = mset rs"
  by (simp add: lib_ok_def)

lemma lib_ok_set: "lib_ok lib \<Longrightarrow> set (sort_values lib key asc rs) = set rs"
  by (rule mset_eq_setD) (rule lib_ok_mset)

lemma lib_ok_length: "lib_ok lib \<Longrightarrow> length (sort_values lib key asc rs) = length rs"
  by (rule mset_eq_length) (rule lib_ok_mset)

lemma sort_values_Nil: "lib_ok lib \<Longrightarrow> sort_values lib key asc [] = []"
  using lib_ok_length [of lib key asc "[]"] by simp

lemma in_order_total: "in_order asc x y \<or> in_order asc y x"
  by (cases x; cases y) auto

lemma in_order_trans: "in_order asc x y \<Longrightarrow> in_order asc y z \<Longrightarrow> in_order asc x z"
  by (cases x; cases y; cases z) (auto split: if_splits)

lemma set_insert_row: "set (insert_row key asc x ys) = insert x (set ys)"
  by (induction ys) auto

lemma mset_insert_row: "mset (insert_row key asc x ys) = add_mset x (mset ys)"
  by (induction ys) auto

lemma sorted_insert_row:
  assumes "sorted_wrt (\<lambda>a b. in_order asc (key a) (key b)) ys"
  shows "sorted_wrt (\<lambda>a b. in_order asc (key a) (key b)) (insert_row key asc x ys)"
  using assms
proof (induction ys)
  case Nil
  then show ?case by simp
next
  case (Cons y ys)
  show ?case
  proof (cases "in_order asc (key x) (key y)")
    case True
    with Cons.prems show ?thesis by (auto intro: in_order_trans)
  next
    case False
    with in_order_total [of asc "key x" "key y"] have "in_order asc (key y) (key x)" by blast
    with False Cons show ?thesis by (auto simp: set_insert_row)
  qed
qed

lemma mset_insertion_sort: "mset (insertion_sort key asc rs) = mset rs"
  by (induction rs) (simp_all add: insertion_sort_def mset_insert_row)

lemma sorted_insertion_sort:
  "sorted_wrt (\<lambda>a b. in_order asc (key a) (key b)) (insertion_sort key asc rs)"
  by (induction rs) (simp_all add: insertion_sort_def sorted_insert_row)

lemma documented_ok: "lib_ok documented"
  by (auto simp: lib_ok_def documented_def tfidf_fit_transform_def mset_insertion_sort
      sorted_insertion_sort split: if_splits)

lemma denom_nonzero: "denom v \<noteq> 0"
  by (simp add: denom_def Let_def)

lemma denom_pos: "0 < denom v"
proof -
  have "0 \<le> sum_list (map (\<lambda>x. x * x) v)" by (rule sum_list_nonneg) auto
  then have "0 \<le> sqrt (sum_list (map (\<lambda>x. x * x) v))" by simp
  then show ?thesis by (auto simp: denom_def Let_def less_le)
qed

lemma idf_pos: "df \<le> n \<Longrightarrow> 0 < idf n df"
proof -
  assume "df \<le> n"
  then have "1 \<le> (1 + real n) / (1 + real df)" by (simp add: field_simps)
  then have "0 \<le> ln ((1 + real n) / (1 + real df))" by simp
  then show ?thesis unfolding idf_def by linarith
qed

lemma l2_normalize_zero: "\<forall>x \<in> set v. x = 0 \<Longrightarrow> \<forall>x \<in> set (l2_normalize v). x = 0"
  by (auto simp: l2_normalize_def)

lemma dot_zero_right: "\<forall>x \<in> set v. x = 0 \<Longrightarrow> dot u v = 0"
proof (induction v arbitrary: u)
  case Nil
  then show ?case by (simp add: dot_def)
next
  case (Cons y v)
  from Cons.prems have y: "y = 0" and v: "\<forall>x \<in> set v. x = 0" by simp_all
  show ?case
  proof (cases u)
    case Nil
    then show ?thesis by (simp add: dot_def)
  next
    case (Cons a u')
    with Cons.IH [OF v, of u'] y show ?thesis by (simp add: dot_def)
  qed
qed

lemma dot_commute: "dot u v = dot v u"
proof (induction u arbitrary: v)
  case Nil
  then show ?case by (simp add: dot_def)
next
  case (Cons a u)
  show ?case
  proof (cases v)
    case Nil
    then show ?thesis by (simp add: dot_def)
  next
    case (Cons b v')
    with Cons.IH [of v'] show ?thesis by (simp add: dot_def)
  qed
qed

lemma cosine_zero_right: "\<forall>x \<in> set v. x = 0 \<Longrightarrow> cosine u v = 0"
  unfolding cosine_def by (rule dot_zero_right) (rule l2_normalize_zero)

lemma cosine_zero_left: "\<forall>x \<in> set u. x = 0 \<Longrightarrow> cosine u v = 0"
  unfolding cosine_def by (subst dot_commute, rule dot_zero_right) (rule l2_normalize_zero)

lemma tfidf_row_no_term: "tokens d = [] \<Longrightarrow> \<forall>x \<in> set (tfidf_row ts d). x = 0"
  unfolding tfidf_row_def by (rule l2_normalize_zero) (simp add: tf_idf_def)

lemma filter_nan_to_zero:
  "filter (\<lambda>x. Q (fst x) \<and> gt_zero (snd x)) (zip vs (map nan_to_zero ss)) =
   filter (\<lambda>x. Q (fst x) \<and> gt_zero (snd x)) (zip vs ss)"
proof (induction vs arbitrary: ss)
  case Nil
  then show ?case by simp
next
  case (Cons v vs)
  show ?case
  proof (cases ss)
    case Nil
    then show ?thesis by simp
  next
    case (Cons s ss')
    with Cons.IH [of ss'] show ?thesis by (cases s) auto
  qed
qed

section \<open>The paths of \<^verbatim>\<open>build_recommendations\<close>\<close>

text \<open>An empty catalog comes back at once; nothing is computed.\<close>

lemma build_empty: "build_recommendations lib [] progress uid top_n = Inr (Videos [])"
  by (simp add: build_recommendations_def)

text \<open>What lines 138 to 145 raise on a catalog that is not empty is raised by the call.\<close>

lemma build_raises:
  assumes "videos \<noteq> []" "index_catalog lib videos = Inl e"
  shows "build_recommendations lib videos progress uid top_n = Inl e"
  using assms unfolding build_recommendations_def index_catalog_def
  by (auto split: sum.splits)

text \<open>Once the catalog is indexed, the two history checks hand back the argument \<^verbatim>\<open>videos\<close>.\<close>

lemma build_fallback:
  assumes "videos = [] \<or> indexable lib videos" "insufficient videos progress uid"
  shows "build_recommendations lib videos progress uid top_n = Inr (Videos videos)"
proof (cases "videos = []")
  case True
  then show ?thesis by (simp add: build_recommendations_def)
next
  case False
  with assms(1) have "indexable lib videos" by simp
  then obtain ts m where "texts videos = Inr ts" "fit_transform lib ts = Inr m"
    by (rule indexableE)
  with assms(2) False show ?thesis
    by (auto simp: insufficient_def build_recommendations_def watched_ids_def Let_def)
qed

text \<open>
  Otherwise, with a library that keeps the shapes, nothing more is raised and the result
  is the head of the sorted candidates.
\<close>

lemma build_ranked:
  assumes "lib_ok lib" "indexable lib videos" "\<not> insufficient videos progress uid"
  shows "build_recommendations lib videos progress uid top_n =
         Inr (WithSimilarity
               (head top_n (sort_values lib snd False (candidates lib videos progress uid))))"
proof -
  from assms(2) obtain ts m where t: "texts videos = Inr ts" and f: "fit_transform lib ts = Inr m"
    by (rule indexableE)
  have i: "index_catalog lib videos = Inr m" by (simp add: index_catalog_def t f)
  have len_m: "length m = length videos"
    using lib_ok_rows [OF assms(1) f] texts_length [OF t] by simp
  have len_s: "length (similarities lib videos progress uid) = length videos"
    by (simp add: similarities_def i lib_ok_scores [OF assms(1)] len_m)
  have no_idx: "\<not> list_ex (\<lambda>i. length m \<le> i) (watched_idx videos (watched_ids progress uid))"
    using watched_idx_bound len_m by (fastforce simp: list_ex_iff)
  show ?thesis
    using assms(3) no_idx len_s
    unfolding insufficient_def build_recommendations_def candidates_def unwatched_scored_def
      similarities_def i watched_ids_def Let_def
    by (simp add: t f)
qed

lemma ranked_result:
  assumes "lib_ok lib" "indexable lib videos" "\<not> insufficient videos progress uid"
  obtains m where
    "build_recommendations lib videos progress uid top_n =
       Inr (WithSimilarity (take m (sort_values lib snd False (candidates lib videos progress uid))))"
  using build_ranked [OF assms] head_take by metis

text \<open>The history enters the result through the set of distinct watched ids only.\<close>

lemma build_cong:
  assumes "set (watched_ids p uid) = set (watched_ids q uid)"
  shows "build_recommendations lib videos p uid n = build_recommendations lib videos q uid n"
proof -
  let ?a = "unique (map progress_video_id (user_watched p uid))"
  let ?b = "unique (map progress_video_id (user_watched q uid))"
  from assms have s: "set ?a = set ?b" by (simp only: watched_ids_def)
  have l: "length ?a = length ?b" unfolding length_unique using s by simp
  from s have w: "watched_idx videos ?a = watched_idx videos ?b" by (simp only: watched_idx_def)
  show ?thesis
    unfolding build_recommendations_def Let_def s l w ..
qed

text \<open>
  The ranking is in the order of line 172: by decreasing similarity. (Which of two rows
  with equal similarity comes first is left to the library's sort.)
\<close>

lemma ranked_in_order:
  assumes "lib_ok lib" "indexable lib videos" "\<not> insufficient videos progress uid"
  shows "\<exists>rs. build_recommendations lib videos progress uid top_n = Inr (WithSimilarity rs) \<and>
              sorted_wrt (\<lambda>a b. in_order False (snd a) (snd b)) rs"
proof -
  from ranked_result [OF assms] obtain m where
    b: "build_recommendations lib videos progress uid top_n =
        Inr (WithSimilarity (take m (sort_values lib snd False (candidates lib videos progress uid))))"
    by blast
  have "sorted_wrt (\<lambda>a b. in_order False (snd a) (snd b))
          (take m (sort_values lib snd False (candidates lib videos progress uid)))"
    by (rule sorted_wrt_take) (rule lib_ok_sorted [OF assms(1)])
  with b show ?thesis by blast
qed

section \<open>Watched items\<close>

text \<open>
  C1, as the code has it. On the ranked path, that is when the catalog is indexed without
  an error, the user has at least two distinct watched ids and at least one of them is in
  the catalog, \<^verbatim>\<open>build_recommendations\<close> returns a scored frame, and no row of it carries
  an id of the user's distinct watched-id set, whatever its similarity. (On an early
  return the whole catalog comes back, watched rows included.)
\<close>

theorem ranked_excludes_watched:
  assumes "lib_ok lib" "indexable lib videos" "\<not> insufficient videos progress uid"
  shows "\<exists>rs. build_recommendations lib videos progress uid top_n = Inr (WithSimilarity rs) \<and>
              (\<forall>r \<in> set rs. video_id (fst r) \<notin> set (watched_ids progress uid))"
proof -
  let ?c = "candidates lib videos progress uid"
  have "set (head top_n (sort_values lib snd False ?c)) \<subseteq> set ?c"
    using set_head lib_ok_set [OF assms(1)] by metis
  moreover have "\<forall>r \<in> set ?c. video_id (fst r) \<notin> set (watched_ids progress uid)"
    by (simp add: candidates_def unwatched_scored_def)
  ultimately show ?thesis using build_ranked [OF assms] by blast
qed

theorem ranked_excludes_watched_witness:
  "lib_ok documented \<and>
   indexable documented
     [reel ''v1'' ''ab'', reel ''v2'' ''ab'', reel ''v3'' ''a'', reel ''v4'' ''bb''] \<and>
   \<not> insufficient [reel ''v1'' ''ab'', reel ''v2'' ''ab'', reel ''v3'' ''a'', reel ''v4'' ''bb'']
       [seen ''u'' ''v1'', seen ''u'' ''v2''] ''u'' \<and>
   (\<exists>rs. build_recommendations documented
           [reel ''v1'' ''ab'', reel ''v2'' ''ab'', reel ''v3'' ''a'', reel ''v4'' ''bb'']
           [seen ''u'' ''v1'', seen ''u'' ''v2''] ''u'' 10 = Inr (WithSimilarity rs) \<and>
         list_all (\<lambda>r. video_id (fst r) \<notin>
                     set (watched_ids [seen ''u'' ''v1'', seen ''u'' ''v2''] ''u'')) rs)"
proof -
  let ?cat = "[reel ''v1'' ''ab'', reel ''v2'' ''ab'', reel ''v3'' ''a'', reel ''v4'' ''bb'']"
  let ?h = "[seen ''u'' ''v1'', seen ''u'' ''v2'']"
  have i: "indexable documented ?cat" by (simp add: model_defs token_defs)
  have n: "\<not> insufficient ?cat ?h ''u''" by (simp add: model_defs token_defs)
  show ?thesis
    using ranked_excludes_watched [OF documented_ok i n, of 10] documented_ok i n
    by (simp only: list_all_iff simp_thms)
qed

text \<open>
  With one watched reel the second early return hands back the catalog, and the watched
  reel \<open>v1\<close> is in it.
\<close>

theorem fallback_keeps_watched_item:
  "build_recommendations documented [reel ''v1'' ''ab'', reel ''v2'' ''a''] [seen ''u'' ''v1'']
     ''u'' 10
     = Inr (Videos [reel ''v1'' ''ab'', reel ''v2'' ''a'']) \<and>
   video_id (reel ''v1'' ''ab'') \<in> set (watched_ids [seen ''u'' ''v1''] ''u'')"
  by (simp add: model_defs token_defs)

section \<open>Fallback and empty ranking\<close>

text \<open>
  C2, as the code has it. Whenever the catalog is empty, or the catalog is indexed without
  an error and the history is insufficient (fewer than two distinct watched ids, or none
  of them in the catalog), the result is the fallback: the input catalog, a frame without
  the similarity column, which an empty ranked list is not. Conversely, when the catalog
  is indexed without an error, the user has at least two valid watched ids and no
  unwatched row has a similarity above 0, the result is the empty ranked list and not the
  fallback.
\<close>

theorem fallback_distinct_from_empty_ranking:
  assumes "lib_ok lib"
  shows "(videos = [] \<or>
          indexable lib videos \<and>
          (card (set (watched_ids progress uid)) < 2 \<or>
           set (watched_ids progress uid) \<inter> video_id ` set videos = {})
           \<longrightarrow> build_recommendations lib videos progress uid top_n = Inr (Videos videos) \<and>
               Inr (Videos videos) \<noteq> (Inr (WithSimilarity []) :: error + frame)) \<and>
         (indexable lib videos \<and>
          2 \<le> length (valid_watched_ids videos progress uid) \<and>
          (\<forall>r \<in> set (unwatched_scored lib videos progress uid). \<not> gt_zero (snd r))
           \<longrightarrow> build_recommendations lib videos progress uid top_n = Inr (WithSimilarity []) \<and>
               Inr (WithSimilarity []) \<noteq> (Inr (Videos videos) :: error + frame))"
proof (intro conjI impI)
  assume a: "videos = [] \<or>
          indexable lib videos \<and>
          (card (set (watched_ids progress uid)) < 2 \<or>
           set (watched_ids progress uid) \<inter> video_id ` set videos = {})"
  then have "insufficient videos progress uid" by (auto simp: insufficient_iff)
  moreover from a have "videos = [] \<or> indexable lib videos" by blast
  ultimately show "build_recommendations lib videos progress uid top_n = Inr (Videos videos)"
    by (rule build_fallback [rotated])
  show "Inr (Videos videos) \<noteq> (Inr (WithSimilarity []) :: error + frame)" by simp
next
  assume h: "indexable lib videos \<and>
          2 \<le> length (valid_watched_ids videos progress uid) \<and>
          (\<forall>r \<in> set (unwatched_scored lib videos progress uid). \<not> gt_zero (snd r))"
  then have i: "indexable lib videos" and n: "\<not> insufficient videos progress uid"
    by (simp_all add: valid_two_sufficient)
  from h have c: "candidates lib videos progress uid = []"
    by (simp add: candidates_def filter_empty_conv)
  show "build_recommendations lib videos progress uid top_n = Inr (WithSimilarity [])"
    using build_ranked [OF assms i n, of top_n] c sort_values_Nil [OF assms]
    by (simp add: head_def)
  show "Inr (WithSimilarity []) \<noteq> (Inr (Videos videos) :: error + frame)" by simp
qed

theorem fallback_distinct_from_empty_ranking_witness:
  "lib_ok documented \<and>
   indexable documented [reel ''v1'' ''ab'', reel ''v2'' ''ab'', reel ''v3'' ''cd''] \<and>
   card (set (watched_ids [seen ''u'' ''v1''] ''u'')) < 2 \<and>
   build_recommendations documented [reel ''v1'' ''ab'', reel ''v2'' ''ab'', reel ''v3'' ''cd'']
     [seen ''u'' ''v1''] ''u'' 20
     = Inr (Videos [reel ''v1'' ''ab'', reel ''v2'' ''ab'', reel ''v3'' ''cd'']) \<and>
   2 \<le> length (valid_watched_ids [reel ''v1'' ''ab'', reel ''v2'' ''ab'', reel ''v3'' ''cd'']
                [seen ''u'' ''v1'', seen ''u'' ''v2''] ''u'') \<and>
   list_all (\<lambda>r. \<not> gt_zero (snd r))
     (unwatched_scored documented [reel ''v1'' ''ab'', reel ''v2'' ''ab'', reel ''v3'' ''cd'']
        [seen ''u'' ''v1'', seen ''u'' ''v2''] ''u'') \<and>
   build_recommendations documented [reel ''v1'' ''ab'', reel ''v2'' ''ab'', reel ''v3'' ''cd'']
     [seen ''u'' ''v1'', seen ''u'' ''v2''] ''u'' 20
     = Inr (WithSimilarity [])"
proof -
  let ?cat = "[reel ''v1'' ''ab'', reel ''v2'' ''ab'', reel ''v3'' ''cd'']"
  let ?h = "[seen ''u'' ''v1'', seen ''u'' ''v2'']"
  have i: "indexable documented ?cat" by (simp add: model_defs token_defs)
  have a1: "card (set (watched_ids [seen ''u'' ''v1''] ''u'')) < 2"
    by (simp add: model_defs token_defs)
  have a2: "2 \<le> length (valid_watched_ids ?cat ?h ''u'')"
    by (simp add: model_defs token_defs)
  have a3: "\<forall>r \<in> set (unwatched_scored documented ?cat ?h ''u''). \<not> gt_zero (snd r)"
    by (simp add: model_defs token_defs score_defs)
  from fallback_distinct_from_empty_ranking
         [OF documented_ok, of ?cat "[seen ''u'' ''v1'']" "''u''" 20] i a1
  have r1: "build_recommendations documented ?cat [seen ''u'' ''v1''] ''u'' 20 = Inr (Videos ?cat)"
    by blast
  from fallback_distinct_from_empty_ranking [OF documented_ok, of ?cat ?h "''u''" 20] i a2 a3
  have r2: "build_recommendations documented ?cat ?h ''u'' 20 = Inr (WithSimilarity [])"
    by blast
  from a3 have a3': "list_all (\<lambda>r. \<not> gt_zero (snd r)) (unwatched_scored documented ?cat ?h ''u'')"
    by (simp only: list_all_iff)
  from documented_ok i a1 r1 a2 a3' r2 show ?thesis by (intro conjI)
qed

text \<open>
  A catalog of two reels whose titles have no term, and one watched reel: the history is
  insufficient, and the call raises what \<^verbatim>\<open>fit_transform\<close> raised instead of returning
  a fallback.
\<close>

theorem insufficient_history_raises:
  "card (set (watched_ids [seen ''u'' ''v1''] ''u'')) < 2 \<and>
   build_recommendations documented [reel ''v1'' ''a'', reel ''v2'' ''b''] [seen ''u'' ''v1'']
     ''u'' 20 = Inl ValueError"
  by (simp add: model_defs token_defs)

section \<open>When the fallback is taken\<close>

text \<open>
  C3, as the code has it. For a catalog that is empty or indexed without an error, the
  result is the fallback (the input catalog) exactly when the catalog is empty, or the
  user has fewer than two distinct watched ids, counted whether or not they are in the
  catalog, or no watched id is in the catalog; in every other case it is a ranking. In
  particular a history with exactly one distinct watched id gives the fallback.
\<close>

theorem fallback_exactly_when:
  assumes "lib_ok lib"
  shows "(videos = [] \<or>
          indexable lib videos \<and>
          (card (set (watched_ids progress uid)) < 2 \<or>
           set (watched_ids progress uid) \<inter> video_id ` set videos = {})
            \<longrightarrow> build_recommendations lib videos progress uid top_n = Inr (Videos videos)) \<and>
         (videos \<noteq> [] \<and> indexable lib videos \<and>
          2 \<le> card (set (watched_ids progress uid)) \<and>
          set (watched_ids progress uid) \<inter> video_id ` set videos \<noteq> {}
            \<longrightarrow> (\<exists>rs. build_recommendations lib videos progress uid top_n =
                        Inr (WithSimilarity rs)))"
proof (intro conjI impI)
  assume a: "videos = [] \<or>
          indexable lib videos \<and>
          (card (set (watched_ids progress uid)) < 2 \<or>
           set (watched_ids progress uid) \<inter> video_id ` set videos = {})"
  then have "insufficient videos progress uid" by (auto simp: insufficient_iff)
  moreover from a have "videos = [] \<or> indexable lib videos" by blast
  ultimately show "build_recommendations lib videos progress uid top_n = Inr (Videos videos)"
    by (rule build_fallback [rotated])
next
  assume a: "videos \<noteq> [] \<and> indexable lib videos \<and>
          2 \<le> card (set (watched_ids progress uid)) \<and>
          set (watched_ids progress uid) \<inter> video_id ` set videos \<noteq> {}"
  then have i: "indexable lib videos" and n: "\<not> insufficient videos progress uid"
    by (simp_all add: insufficient_iff)
  from build_ranked [OF assms i n]
  show "\<exists>rs. build_recommendations lib videos progress uid top_n = Inr (WithSimilarity rs)"
    by blast
qed

theorem fallback_exactly_when_witness:
  "lib_ok documented \<and>
   indexable documented [reel ''v1'' ''ab'', reel ''v2'' ''a'', reel ''v3'' ''bb''] \<and>
   card (set (watched_ids [seen ''u'' ''v1''] ''u'')) < 2 \<and>
   build_recommendations documented [reel ''v1'' ''ab'', reel ''v2'' ''a'', reel ''v3'' ''bb'']
     [seen ''u'' ''v1''] ''u'' 10
     = Inr (Videos [reel ''v1'' ''ab'', reel ''v2'' ''a'', reel ''v3'' ''bb'']) \<and>
   [reel ''v1'' ''ab'', reel ''v2'' ''a'', reel ''v3'' ''bb''] \<noteq> [] \<and>
   2 \<le> card (set (watched_ids [seen ''u'' ''v1'', seen ''u'' ''v2''] ''u'')) \<and>
   set (watched_ids [seen ''u'' ''v1'', seen ''u'' ''v2''] ''u'') \<inter>
     video_id ` set [reel ''v1'' ''ab'', reel ''v2'' ''a'', reel ''v3'' ''bb''] \<noteq> {} \<and>
   (\<exists>rs. build_recommendations documented
           [reel ''v1'' ''ab'', reel ''v2'' ''a'', reel ''v3'' ''bb'']
           [seen ''u'' ''v1'', seen ''u'' ''v2''] ''u'' 10 = Inr (WithSimilarity rs))"
proof -
  let ?cat = "[reel ''v1'' ''ab'', reel ''v2'' ''a'', reel ''v3'' ''bb'']"
  let ?h = "[seen ''u'' ''v1'', seen ''u'' ''v2'']"
  have i: "indexable documented ?cat" by (simp add: model_defs token_defs)
  have a1: "card (set (watched_ids [seen ''u'' ''v1''] ''u'')) < 2"
    by (simp add: model_defs token_defs)
  have a2: "?cat \<noteq> []" by simp
  have a3: "2 \<le> card (set (watched_ids ?h ''u''))"
    by (simp add: model_defs token_defs)
  have a4: "set (watched_ids ?h ''u'') \<inter> video_id ` set ?cat \<noteq> {}"
    by (simp add: model_defs token_defs)
  from fallback_exactly_when [OF documented_ok, of ?cat "[seen ''u'' ''v1'']" "''u''" 10] i a1
  have r1: "build_recommendations documented ?cat [seen ''u'' ''v1''] ''u'' 10 = Inr (Videos ?cat)"
    by blast
  from fallback_exactly_when [OF documented_ok, of ?cat ?h "''u''" 10] i a2 a3 a4
  have r2: "\<exists>rs. build_recommendations documented ?cat ?h ''u'' 10 = Inr (WithSimilarity rs)"
    by blast
  from documented_ok i a1 r1 a2 a3 a4 r2 show ?thesis by (intro conjI)
qed

text \<open>
  Two distinct watched ids, of which only \<open>v1\<close> is in the catalog: a single valid watched
  id, and the result is not the fallback but a ranking from the profile of that one reel
  (an empty one here: \<open>v2\<close> has no term and \<open>v3\<close> shares none with \<open>v1\<close>).
\<close>

theorem one_valid_watched_id_is_ranked:
  "valid_watched_ids [reel ''v1'' ''ab'', reel ''v2'' ''a'', reel ''v3'' ''bb'']
     [seen ''u'' ''v1'', seen ''u'' ''gone''] ''u'' = [''v1''] \<and>
   build_recommendations documented [reel ''v1'' ''ab'', reel ''v2'' ''a'', reel ''v3'' ''bb'']
     [seen ''u'' ''v1'', seen ''u'' ''gone''] ''u'' 10
     = Inr (WithSimilarity [])"
  by (simp add: model_defs token_defs score_defs)

section \<open>Items without a term\<close>

text \<open>
  C5, as the code has it, for the libraries as documented. For every catalog whose title,
  topic and tag cells are strings or missing and in which at least one item's text has a
  term, the Catalog Indexer raises nothing: it returns one vector per item, and each item
  whose text has no term (in particular one with empty title, topic and tags) receives an
  all-zero vector, has similarity 0 and is in no ranked result.
\<close>

theorem indexer_term_free_items:
  assumes "texts videos = Inr ts" "vocabulary ts \<noteq> []"
  shows "\<exists>m. index_catalog documented videos = Inr m \<and> length m = length videos \<and>
           (\<forall>i < length videos. tokens (ts ! i) = [] \<longrightarrow>
              (\<forall>x \<in> set (m ! i). x = 0) \<and>
              similarities documented videos progress uid ! i = Some 0 \<and>
              (\<forall>rs. build_recommendations documented videos progress uid top_n =
                      Inr (WithSimilarity rs) \<longrightarrow> videos ! i \<notin> fst ` set rs))"
proof -
  let ?m = "map (tfidf_row ts) ts"
  let ?p = "mean_rows (map (\<lambda>i. ?m ! i) (watched_idx videos (watched_ids progress uid)))"
  have len: "length ts = length videos" by (rule texts_length [OF assms(1)])
  have idx: "index_catalog documented videos = Inr ?m"
    using assms by (simp add: index_catalog_def documented_def tfidf_fit_transform_def)
  then have ixb: "indexable documented videos" by (simp add: indexable_def)
  have sims: "similarities documented videos progress uid = map (\<lambda>r. Some (cosine ?p r)) ?m"
    by (simp add: similarities_def idx) (simp add: documented_def)
  have zero: "\<forall>x \<in> set (?m ! j). x = 0" "similarities documented videos progress uid ! j = Some 0"
    if "j < length videos" "tokens (ts ! j) = []" for j
  proof -
    from that len show z: "\<forall>x \<in> set (?m ! j). x = 0" by (simp add: tfidf_row_no_term)
    from that len have "similarities documented videos progress uid ! j = Some (cosine ?p (?m ! j))"
      by (simp add: sims)
    with cosine_zero_right [OF z] show "similarities documented videos progress uid ! j = Some 0"
      by simp
  qed
  have never: "videos ! i \<notin> fst ` set rs"
    if i: "i < length videos" "tokens (ts ! i) = []"
      and b: "build_recommendations documented videos progress uid top_n = Inr (WithSimilarity rs)"
    for i rs
  proof
    assume "videos ! i \<in> fst ` set rs"
    then obtain s where s: "(videos ! i, s) \<in> set rs" by force
    have n: "\<not> insufficient videos progress uid"
    proof
      assume "insufficient videos progress uid"
      with build_fallback [of videos documented progress uid top_n] ixb b show False by simp
    qed
    from build_ranked [OF documented_ok ixb n, of top_n] b
    have "set rs \<subseteq> set (candidates documented videos progress uid)"
      using set_head lib_ok_set [OF documented_ok] by (metis Inr_inject frame.inject(2))
    with s have g: "gt_zero s"
      and z: "(videos ! i, s) \<in> set (zip videos (similarities documented videos progress uid))"
      by (auto simp: candidates_def unwatched_scored_def)
    from z obtain j where j: "j < length videos" "videos ! j = videos ! i"
      "similarities documented videos progress uid ! j = s"
      by (auto simp: in_set_zip)
    from texts_nth [OF assms(1) j(1)] texts_nth [OF assms(1) i(1)] j(2)
    have "ts ! j = ts ! i" by simp
    with i(2) zero(2) [OF j(1)] j(3) have "s = Some 0" by simp
    with g show False by simp
  qed
  from idx len zero never show ?thesis by (intro exI [of _ ?m]) simp
qed

theorem indexer_term_free_items_witness:
  "texts [reel ''v1'' ''ab cd'', reel ''v2'' ''ab'', blank ''v3'']
     = Inr [''ab cd  '', ''ab  '', ''  ''] \<and>
   vocabulary [''ab cd  '', ''ab  '', ''  ''] \<noteq> [] \<and>
   tokens ([''ab cd  '', ''ab  '', ''  ''] ! 2) = [] \<and>
   (\<exists>m. index_catalog documented [reel ''v1'' ''ab cd'', reel ''v2'' ''ab'', blank ''v3'']
          = Inr m \<and>
        list_all (\<lambda>x. x = 0) (m ! 2) \<and>
        similarities documented [reel ''v1'' ''ab cd'', reel ''v2'' ''ab'', blank ''v3'']
          [seen ''u'' ''v1'', seen ''u'' ''v2''] ''u'' ! 2 = Some 0)"
proof -
  let ?cat = "[reel ''v1'' ''ab cd'', reel ''v2'' ''ab'', blank ''v3'']"
  let ?ts = "[''ab cd  '', ''ab  '', ''  '']"
  let ?h = "[seen ''u'' ''v1'', seen ''u'' ''v2'']"
  have t: "texts ?cat = Inr ?ts" by (simp add: row_text_def reel_def blank_def)
  have v: "vocabulary ?ts \<noteq> []" by (simp add: token_defs)
  have e: "tokens (?ts ! 2) = []" by (simp add: token_defs)
  have l: "(2::nat) < length ?cat" by simp
  from indexer_term_free_items [OF t v, of ?h "''u''" 10] l e
  have "\<exists>m. index_catalog documented ?cat = Inr m \<and> (\<forall>x \<in> set (m ! 2). x = 0) \<and>
            similarities documented ?cat ?h ''u'' ! 2 = Some 0"
    by blast
  with t v e show ?thesis by (simp only: list_all_iff simp_thms)
qed

text \<open>
  A catalog in which no item has a term, one of the items having empty title, topic and
  tags: the indexer raises, and so does the call.
\<close>

theorem indexer_raises_without_term:
  "index_catalog documented [reel ''v1'' ''a'', blank ''v2''] = Inl ValueError \<and>
   build_recommendations documented [reel ''v1'' ''a'', blank ''v2''] [] ''u'' 10
     = Inl ValueError"
  by (simp add: model_defs token_defs blank_def)

section \<open>Positive similarity\<close>

text \<open>
  C6. Every row of a ranked (non-fallback) result is a catalog row paired with its
  similarity to the user profile, and that similarity is a number strictly greater than
  0: every item whose similarity is at most 0 is excluded.
\<close>

theorem ranked_similarity_positive:
  assumes "lib_ok lib" "indexable lib videos" "\<not> insufficient videos progress uid"
  shows "\<exists>rs. build_recommendations lib videos progress uid top_n = Inr (WithSimilarity rs) \<and>
              (\<forall>r \<in> set rs. (\<exists>s. snd r = Some s \<and> 0 < s) \<and>
                 r \<in> set (zip videos (similarities lib videos progress uid)))"
proof -
  let ?c = "candidates lib videos progress uid"
  have "set (head top_n (sort_values lib snd False ?c)) \<subseteq> set ?c"
    using set_head lib_ok_set [OF assms(1)] by metis
  moreover have "(\<exists>s. snd r = Some s \<and> 0 < s) \<and>
                   r \<in> set (zip videos (similarities lib videos progress uid))"
    if "r \<in> set ?c" for r
    using that by (cases "snd r") (auto simp: candidates_def unwatched_scored_def)
  ultimately show ?thesis using build_ranked [OF assms] by blast
qed

theorem ranked_similarity_positive_witness:
  "lib_ok documented \<and>
   indexable documented
     [reel ''v1'' ''ab cd'', reel ''v2'' ''ab cd'', reel ''v3'' ''ab'', reel ''v4'' ''ef''] \<and>
   \<not> insufficient
       [reel ''v1'' ''ab cd'', reel ''v2'' ''ab cd'', reel ''v3'' ''ab'', reel ''v4'' ''ef'']
       [seen ''u'' ''v1'', seen ''u'' ''v2''] ''u'' \<and>
   (\<exists>rs. build_recommendations documented
           [reel ''v1'' ''ab cd'', reel ''v2'' ''ab cd'', reel ''v3'' ''ab'', reel ''v4'' ''ef'']
           [seen ''u'' ''v1'', seen ''u'' ''v2''] ''u'' 10 = Inr (WithSimilarity rs) \<and>
         list_all (\<lambda>r. \<exists>s. snd r = Some s \<and> 0 < s) rs)"
proof -
  let ?cat = "[reel ''v1'' ''ab cd'', reel ''v2'' ''ab cd'', reel ''v3'' ''ab'', reel ''v4'' ''ef'']"
  let ?h = "[seen ''u'' ''v1'', seen ''u'' ''v2'']"
  have i: "indexable documented ?cat" by (simp add: model_defs token_defs)
  have n: "\<not> insufficient ?cat ?h ''u''" by (simp add: model_defs token_defs)
  from ranked_similarity_positive [OF documented_ok i n, of 10] documented_ok i n
  show ?thesis unfolding list_all_iff by blast
qed

section \<open>Zero vectors and NaN\<close>

text \<open>
  C7. For the cosine similarity as documented, every division is by a number other than
  0, the similarity with a zero vector (a zero profile or a zero item vector) is 0, and
  no score is NaN. For any library, also one that returns NaN scores, every row that
  reaches the ranking step carries a number above 0, and the result is the same as if
  every NaN had been replaced by the similarity 0 beforehand.
\<close>

theorem similarity_total_and_nan_free:
  "denom u \<noteq> 0 \<and> denom v \<noteq> 0 \<and>
   ((\<forall>x \<in> set u. x = 0) \<or> (\<forall>x \<in> set v. x = 0) \<longrightarrow> cosine u v = 0) \<and>
   (\<forall>s \<in> set (cosine_similarity documented u m). s \<noteq> None) \<and>
   (\<forall>r \<in> set (candidates lib videos progress uid). \<exists>x. snd r = Some x \<and> 0 < x) \<and>
   build_recommendations
     (lib\<lparr>cosine_similarity := \<lambda>p m. map nan_to_zero (cosine_similarity lib p m)\<rparr>)
     videos progress uid top_n
   = build_recommendations lib videos progress uid top_n"
proof (intro conjI)
  show "denom u \<noteq> 0" "denom v \<noteq> 0" by (rule denom_nonzero)+
  show "(\<forall>x \<in> set u. x = 0) \<or> (\<forall>x \<in> set v. x = 0) \<longrightarrow> cosine u v = 0"
    using cosine_zero_left cosine_zero_right by blast
  show "\<forall>s \<in> set (cosine_similarity documented u m). s \<noteq> None"
    by (auto simp: documented_def)
  show "\<forall>r \<in> set (candidates lib videos progress uid). \<exists>x. snd r = Some x \<and> 0 < x"
  proof
    fix r assume "r \<in> set (candidates lib videos progress uid)"
    then have "gt_zero (snd r)" by (simp add: candidates_def)
    then show "\<exists>x. snd r = Some x \<and> 0 < x" by (cases "snd r") simp_all
  qed
  let ?lib = "lib\<lparr>cosine_similarity := \<lambda>p m. map nan_to_zero (cosine_similarity lib p m)\<rparr>"
  show "build_recommendations ?lib videos progress uid top_n
        = build_recommendations lib videos progress uid top_n"
  proof (cases "texts videos")
    case (Inl e)
    then show ?thesis by (simp add: build_recommendations_def)
  next
    case t: (Inr ts)
    show ?thesis
    proof (cases "fit_transform lib ts")
      case (Inl e)
      with t show ?thesis by (simp add: build_recommendations_def)
    next
      case f: (Inr mm)
      show ?thesis
        unfolding build_recommendations_def Let_def
        by (simp add: t f
            filter_nan_to_zero
              [of "\<lambda>v. video_id v \<notin> progress_video_id ` set (user_watched progress uid)"])
    qed
  qed
qed

theorem similarity_total_and_nan_free_witness:
  "cosine [0, 0] [3, 4] = 0 \<and>
   list_all (\<lambda>s. s \<noteq> None) (cosine_similarity documented [0, 0] [[3, 4]]) \<and>
   list_all (\<lambda>r. snd r \<noteq> None)
     (candidates documented
        [reel ''v1'' ''ab cd'', reel ''v2'' ''ab cd'', reel ''v3'' ''ab'', reel ''v4'' ''cd'']
        [seen ''u'' ''v1'', seen ''u'' ''v2''] ''u'')"
proof -
  have z: "\<forall>x \<in> set [0, 0 :: real]. x = 0" by simp
  from similarity_total_and_nan_free
         [of "[0, 0]" "[3, 4]" "[[3, 4]]" documented
             "[reel ''v1'' ''ab cd'', reel ''v2'' ''ab cd'', reel ''v3'' ''ab'', reel ''v4'' ''cd'']"
             "[seen ''u'' ''v1'', seen ''u'' ''v2'']" "''u''" 10] z
  show ?thesis unfolding list_all_iff by fastforce
qed

section \<open>Duplicate events\<close>

text \<open>
  C8. Adding, anywhere in the watch history, a copy of an event that the history already
  holds (in particular a watched event of the user) leaves the result unchanged: only
  the set of distinct watched ids matters.
\<close>

theorem duplicate_event_no_effect:
  assumes "e \<in> set (xs @ ys)"
  shows "build_recommendations lib videos (xs @ e # ys) uid top_n =
         build_recommendations lib videos (xs @ ys) uid top_n"
proof (rule build_cong)
  from assms show "set (watched_ids (xs @ e # ys) uid) = set (watched_ids (xs @ ys) uid)"
    by (auto simp: watched_ids_def user_watched_def)
qed

theorem duplicate_event_no_effect_witness:
  "seen ''u'' ''v1'' \<in> set ([seen ''u'' ''v1''] @ [seen ''u'' ''v2'']) \<and>
   build_recommendations documented
     [reel ''v1'' ''ab'', reel ''v2'' ''ab'', reel ''v3'' ''a'']
     ([seen ''u'' ''v1''] @ seen ''u'' ''v1'' # [seen ''u'' ''v2'']) ''u'' 10 =
   build_recommendations documented
     [reel ''v1'' ''ab'', reel ''v2'' ''ab'', reel ''v3'' ''a'']
     ([seen ''u'' ''v1''] @ [seen ''u'' ''v2'']) ''u'' 10"
proof -
  have m: "seen ''u'' ''v1'' \<in> set ([seen ''u'' ''v1''] @ [seen ''u'' ''v2''])" by simp
  from duplicate_event_no_effect [OF m] m show ?thesis by blast
qed

section \<open>Top N\<close>

text \<open>
  C9. On the ranked path, for a requested count \<open>top_n\<close> that is not negative, the result
  is the first \<open>top_n\<close> rows of the sorted candidates: at most \<open>top_n\<close> rows, exactly
  \<open>top_n\<close> when more qualify, and all of them when fewer do.
\<close>

theorem ranked_first_top_n:
  assumes "lib_ok lib" "indexable lib videos" "\<not> insufficient videos progress uid" "0 \<le> top_n"
  shows "\<exists>rs. build_recommendations lib videos progress uid top_n = Inr (WithSimilarity rs) \<and>
              rs = take (nat top_n)
                     (sort_values lib snd False (candidates lib videos progress uid)) \<and>
              length rs = min (length (candidates lib videos progress uid)) (nat top_n) \<and>
              int (length rs) \<le> top_n"
proof -
  let ?ys = "sort_values lib snd False (candidates lib videos progress uid)"
  have l: "length ?ys = length (candidates lib videos progress uid)"
    by (rule lib_ok_length [OF assms(1)])
  from assms(4) have h: "head top_n ?ys = take (nat top_n) ?ys" by (simp add: head_def)
  have "int (min (length ?ys) (nat top_n)) \<le> top_n" using assms(4) by linarith
  then show ?thesis using build_ranked [OF assms(1,2,3), of top_n] h l by simp
qed

theorem ranked_first_top_n_witness:
  "lib_ok documented \<and>
   indexable documented
     [reel ''v1'' ''ab cd'', reel ''v2'' ''ab cd'', reel ''v3'' ''ab'', reel ''v4'' ''cd''] \<and>
   \<not> insufficient
       [reel ''v1'' ''ab cd'', reel ''v2'' ''ab cd'', reel ''v3'' ''ab'', reel ''v4'' ''cd'']
       [seen ''u'' ''v1'', seen ''u'' ''v2''] ''u'' \<and>
   (0::int) \<le> 1 \<and>
   length (candidates documented
       [reel ''v1'' ''ab cd'', reel ''v2'' ''ab cd'', reel ''v3'' ''ab'', reel ''v4'' ''cd'']
       [seen ''u'' ''v1'', seen ''u'' ''v2''] ''u'') = 2 \<and>
   (\<exists>rs. build_recommendations documented
           [reel ''v1'' ''ab cd'', reel ''v2'' ''ab cd'', reel ''v3'' ''ab'', reel ''v4'' ''cd'']
           [seen ''u'' ''v1'', seen ''u'' ''v2''] ''u'' 1 = Inr (WithSimilarity rs) \<and>
         length rs = 1)"
proof -
  let ?cat = "[reel ''v1'' ''ab cd'', reel ''v2'' ''ab cd'', reel ''v3'' ''ab'', reel ''v4'' ''cd'']"
  let ?h = "[seen ''u'' ''v1'', seen ''u'' ''v2'']"
  have i: "indexable documented ?cat" by (simp add: model_defs token_defs)
  have n: "\<not> insufficient ?cat ?h ''u''" by (simp add: model_defs token_defs)
  have z: "(0::int) \<le> 1" by simp
  have c: "length (candidates documented ?cat ?h ''u'') = 2"
    by (simp add: model_defs token_defs score_defs idf_pos denom_pos positive_rules)
  from ranked_first_top_n [OF documented_ok i n z] c
  have "\<exists>rs. build_recommendations documented ?cat ?h ''u'' 1 = Inr (WithSimilarity rs) \<and>
             length rs = 1"
    by auto
  with documented_ok i n z c show ?thesis by (intro conjI)
qed

section \<open>What the fallback returns\<close>

text \<open>
  C10, as the code has it. On every fallback path, that is when the catalog is empty, or
  when it is indexed without an error and the user has fewer than two distinct watched
  ids or no watched id is in the catalog, the result is the input catalog unchanged: the
  same rows in the same order, watched rows and rows of any similarity included.
\<close>

theorem fallback_returns_catalog:
  assumes "videos = [] \<or>
           indexable lib videos \<and>
           (card (set (watched_ids progress uid)) < 2 \<or>
            set (watched_ids progress uid) \<inter> video_id ` set videos = {})"
  shows "build_recommendations lib videos progress uid top_n = Inr (Videos videos) \<and>
         rows (Videos videos) = videos"
proof -
  from assms have "insufficient videos progress uid" by (auto simp: insufficient_iff)
  moreover from assms have "videos = [] \<or> indexable lib videos" by blast
  ultimately show ?thesis using build_fallback by simp
qed

theorem fallback_returns_catalog_witness:
  "indexable documented [reel ''v1'' ''ab'', reel ''v2'' ''a''] \<and>
   set (watched_ids [seen ''u'' ''gone'', seen ''u'' ''lost''] ''u'') \<inter>
     video_id ` set [reel ''v1'' ''ab'', reel ''v2'' ''a''] = {} \<and>
   build_recommendations documented [reel ''v1'' ''ab'', reel ''v2'' ''a'']
     [seen ''u'' ''gone'', seen ''u'' ''lost''] ''u'' 10
     = Inr (Videos [reel ''v1'' ''ab'', reel ''v2'' ''a''])"
proof -
  let ?cat = "[reel ''v1'' ''ab'', reel ''v2'' ''a'']"
  have i: "indexable documented ?cat" by (simp add: model_defs token_defs)
  have d: "set (watched_ids [seen ''u'' ''gone'', seen ''u'' ''lost''] ''u'') \<inter>
             video_id ` set ?cat = {}"
    by (simp add: model_defs token_defs)
  from fallback_returns_catalog
         [of ?cat documented "[seen ''u'' ''gone'', seen ''u'' ''lost'']" "''u''" 10] i d
  show ?thesis by blast
qed

text \<open>
  A user without any watched event, on a catalog whose titles have no term and on a
  catalog whose only title is a number: both are fallback paths, and the call raises
  instead of returning the catalog.
\<close>

theorem fallback_preempted_by_raise:
  "card (set (watched_ids [] ''u'')) < 2 \<and>
   build_recommendations documented [reel ''v1'' ''a'', reel ''v2'' ''b''] [] ''u'' 10
     = Inl ValueError \<and>
   build_recommendations documented [(blank ''v1'')\<lparr>title := Number 101\<rparr>] [] ''u'' 10
     = Inl TypeError"
  by (simp add: model_defs token_defs blank_def)

end
